theory Spec2Isabelle
  imports Main "HOL-Library.AList"
begin

section \<open>Storage: the tables the ingestion pipeline reads and writes\<close>

text \<open>
  The schema's enumerations \<^verbatim>\<open>round_type\<close> and \<^verbatim>\<open>data_source\<close>, and a row of
  \<^verbatim>\<open>college_rounds\<close> with the columns the pipeline touches. Nullable columns are
  options; timestamps are a count of seconds. A table is the list of its rows.
  Queries are taken to succeed unless a function below takes the outcome of a query
  as an argument.
\<close>

datatype round_type = ED | ED2 | EA | REA | RD | ROLLING

datatype data_source = CRAWLER | ADMIN

record college_round =
  row_id :: nat
  college_id :: nat
  round_type :: round_type
  cycle :: string
  deadline_date :: "string option"
  decision_date :: "string option"
  source :: data_source
  admin_confirmed :: bool
  last_crawled_at :: "nat option"

text \<open>
  The four writes to \<^verbatim>\<open>college_rounds\<close> that the crawler service issues, one
  constructor per SQL text:
  \<^item> \<open>UpdateCrawl d i\<close>: \<^verbatim>\<open>UPDATE college_rounds SET deadline_date = $1, source = 'CRAWLER',
    admin_confirmed = false, last_crawled_at = NOW() WHERE id = $2\<close> (crawler.ts);
  \<^item> \<open>UpdatePdf d i\<close>: \<^verbatim>\<open>UPDATE college_rounds SET deadline_date = $1, source = 'CRAWLER',
    last_crawled_at = NOW() WHERE id = $2\<close> (pdf-import.ts);
  \<^item> \<open>Touch i\<close>: \<^verbatim>\<open>UPDATE college_rounds SET last_crawled_at = NOW() WHERE id = $1\<close>;
  \<^item> \<open>InsertRound c r y d\<close>: \<^verbatim>\<open>INSERT INTO college_rounds (college_id, round_type, cycle,
    deadline_date, source, admin_confirmed, last_crawled_at)
    VALUES ($1, $2, $3, $4, 'CRAWLER', false, NOW())\<close>.
\<close>

datatype statement =
    UpdateCrawl string nat
  | UpdatePdf string nat
  | Touch nat
  | InsertRound nat round_type string string


definition next_id :: "college_round list \<Rightarrow> nat" where
  "next_id rows = Suc (foldr max (map row_id rows) 0)"

definition update_where_id :: "nat \<Rightarrow> (college_round \<Rightarrow> college_round) \<Rightarrow> college_round list \<Rightarrow> college_round list" where
  "update_where_id i f rows = map (\<lambda>r. if row_id r = i then f r else r) rows"

fun exec :: "nat \<Rightarrow> college_round list \<Rightarrow> statement \<Rightarrow> college_round list" where
  "exec now rows (UpdateCrawl d i) =
     update_where_id i (\<lambda>r. r\<lparr>deadline_date := Some d, source := CRAWLER,
                               admin_confirmed := False, last_crawled_at := Some now\<rparr>) rows"
| "exec now rows (UpdatePdf d i) =
     update_where_id i (\<lambda>r. r\<lparr>deadline_date := Some d, source := CRAWLER,
                               last_crawled_at := Some now\<rparr>) rows"
| "exec now rows (Touch i) =
     update_where_id i (\<lambda>r. r\<lparr>last_crawled_at := Some now\<rparr>) rows"
| "exec now rows (InsertRound c r y d) =
     rows @ [\<lparr>row_id = next_id rows, college_id = c, round_type = r, cycle = y,
              deadline_date = Some d, decision_date = None, source = CRAWLER,
              admin_confirmed = False, last_crawled_at = Some now\<rparr>]"

text \<open>
  \<^verbatim>\<open>SELECT ... FROM college_rounds WHERE college_id = $1 AND round_type = $2 AND cycle = $3\<close>:
  the rows of the key, in table order. Both callers read \<^verbatim>\<open>rows[0]\<close>.
\<close>

definition select_round :: "college_round list \<Rightarrow> nat \<Rightarrow> round_type \<Rightarrow> string \<Rightarrow> college_round list" where
  "select_round rows c r y =
     filter (\<lambda>x. college_id x = c \<and> round_type x = r \<and> cycle x = y) rows"

text \<open>
  What the callers see of a key: \<^verbatim>\<open>rows[0]\<close> of the select, if there is one.
\<close>

definition stored :: "college_round list \<Rightarrow> nat \<Rightarrow> round_type \<Rightarrow> string \<Rightarrow> college_round option" where
  "stored rows c r y = (case select_round rows c r y of [] \<Rightarrow> None | existing # _ \<Rightarrow> Some existing)"

text \<open>
  The row a statement names in its \<^verbatim>\<open>WHERE id = ...\<close>, and the statement lists that
  name no statement at a given row.
\<close>

fun target :: "statement \<Rightarrow> nat option" where
  "target (UpdateCrawl d i) = Some i"
| "target (UpdatePdf d i) = Some i"
| "target (Touch i) = Some i"
| "target (InsertRound c r y d) = None"

definition spares :: "college_round \<Rightarrow> statement list \<Rightarrow> bool" where
  "spares x ss = (\<forall>s \<in> set ss. target s \<noteq> Some (row_id x))"

section \<open>Reconciliation on the HTML-crawl path (processCollege)\<close>

record DeadlineData =
  dd_deadline_date :: "string option"
  dd_decision_date :: "string option"

text \<open>
  The body of the loop \<^verbatim>\<open>for (const [roundType, data] of Object.entries(deadlines))\<close>
  of \<^verbatim>\<open>processCollege\<close>: the statements it sends for one round, given the table it
  reads. \<^verbatim>\<open>if (data.deadline_date)\<close> is JavaScript truthiness: neither null nor the
  empty string. \<^verbatim>\<open>existing.deadline_date !== data.deadline_date\<close> compares the stored
  date with the candidate's as two dates in the same representation.
\<close>

definition processCollege_round :: "college_round list \<Rightarrow> nat \<Rightarrow> string \<Rightarrow> round_type \<times> DeadlineData \<Rightarrow> statement list" where
  "processCollege_round rows c currentCycle entry =
     (case dd_deadline_date (snd entry) of
        None \<Rightarrow> []
      | Some d \<Rightarrow>
          if d = [] then []
          else (case select_round rows c (fst entry) currentCycle of
                  existing # _ \<Rightarrow>
                    if \<not> admin_confirmed existing \<and> deadline_date existing \<noteq> Some d
                    then [UpdateCrawl d (row_id existing)]
                    else if admin_confirmed existing then []
                    else [Touch (row_id existing)]
                | [] \<Rightarrow> [InsertRound c (fst entry) currentCycle d]))"

text \<open>The loop itself: each round reads the table the rounds before it left.\<close>

fun processCollege_rounds :: "nat \<Rightarrow> college_round list \<Rightarrow> nat \<Rightarrow> string \<Rightarrow> (round_type \<times> DeadlineData) list \<Rightarrow> college_round list \<times> statement list" where
  "processCollege_rounds now rows c currentCycle [] = (rows, [])"
| "processCollege_rounds now rows c currentCycle (entry # entries) =
     (let ss = processCollege_round rows c currentCycle entry;
          (rows', rest) = processCollege_rounds now (foldl (exec now) rows ss) c currentCycle entries
      in (rows', ss @ rest))"

section \<open>Reconciliation on the PDF-import path (importFromPdf)\<close>

record ParsedDeadline =
  collegeName :: string
  roundType :: round_type
  deadlineDate :: string

record import_counts =
  imported :: nat
  skipped :: nat
  errors :: nat

text \<open>
  The body of \<^verbatim>\<open>for (const deadline of deadlines)\<close> in \<^verbatim>\<open>importFromPdf\<close>.
  \<^verbatim>\<open>collegeMatches.get(...)\<close> is undefined for an unmatched name, and
  \<^verbatim>\<open>!collegeId\<close> also holds for the id 0. The result is the statements sent and
  the new counters.
\<close>

definition importFromPdf_deadline :: "college_round list \<Rightarrow> string \<Rightarrow> (string \<rightharpoonup> nat) \<Rightarrow> import_counts \<Rightarrow> ParsedDeadline \<Rightarrow> statement list \<times> import_counts" where
  "importFromPdf_deadline rows cyc collegeMatches n deadline =
     (case collegeMatches (collegeName deadline) of
        None \<Rightarrow> ([], n\<lparr>skipped := skipped n + 1\<rparr>)
      | Some collegeId \<Rightarrow>
          if collegeId = 0 then ([], n\<lparr>skipped := skipped n + 1\<rparr>)
          else (case select_round rows collegeId (roundType deadline) cyc of
                  row # _ \<Rightarrow>
                    if \<not> admin_confirmed row
                    then ([UpdatePdf (deadlineDate deadline) (row_id row)], n\<lparr>imported := imported n + 1\<rparr>)
                    else ([], n\<lparr>skipped := skipped n + 1\<rparr>)
                | [] \<Rightarrow>
                    ([InsertRound collegeId (roundType deadline) cyc (deadlineDate deadline)],
                     n\<lparr>imported := imported n + 1\<rparr>)))"

fun importFromPdf_loop :: "nat \<Rightarrow> college_round list \<Rightarrow> string \<Rightarrow> (string \<rightharpoonup> nat) \<Rightarrow> import_counts \<Rightarrow> ParsedDeadline list \<Rightarrow> college_round list \<times> statement list \<times> import_counts" where
  "importFromPdf_loop now rows cyc collegeMatches n [] = (rows, [], n)"
| "importFromPdf_loop now rows cyc collegeMatches n (deadline # deadlines) =
     (let (ss, n') = importFromPdf_deadline rows cyc collegeMatches n deadline;
          (rows', rest, n'') = importFromPdf_loop now (foldl (exec now) rows ss) cyc collegeMatches n' deadlines
      in (rows', ss @ rest, n''))"

section \<open>The PDF-import trigger (shouldImportPdf)\<close>

text \<open>
  \<^verbatim>\<open>SELECT COUNT(*) as count FROM college_rounds\<close> either throws (\<open>Inl\<close> the message)
  or returns the number of rows; \<^verbatim>\<open>shouldImportPdf\<close> catches the throw and answers
  false.
\<close>

definition count_college_rounds :: "college_round list \<Rightarrow> string + nat" where
  "count_college_rounds rows = Inr (length rows)"

definition shouldImportPdf :: "string + nat \<Rightarrow> bool" where
  "shouldImportPdf totalResult =
     (case totalResult of
        Inl err \<Rightarrow> False
      | Inr totalDeadlines \<Rightarrow> if totalDeadlines < 50 then True else False)"

section \<open>JavaScript strings and regular expressions\<close>

text \<open>
  Strings are lists of characters; the character classes are the ASCII part of
  JavaScript's \<^verbatim>\<open>\d\<close>, \<^verbatim>\<open>\w\<close> and \<^verbatim>\<open>\s\<close>.
\<close>

definition is_digit :: "char \<Rightarrow> bool" where
  "is_digit ch = (ch \<in> set ''0123456789'')"

definition is_upper :: "char \<Rightarrow> bool" where
  "is_upper ch = (ch \<in> set ''ABCDEFGHIJKLMNOPQRSTUVWXYZ'')"

definition is_lower :: "char \<Rightarrow> bool" where
  "is_lower ch = (ch \<in> set ''abcdefghijklmnopqrstuvwxyz'')"

definition is_space :: "char \<Rightarrow> bool" where
  "is_space ch = (ch \<in> set [CHR '' '', CHR 0x09, CHR 0x0A, CHR 0x0B, CHR 0x0C, CHR 0x0D])"

definition toLowerCase_char :: "char \<Rightarrow> char" where
  "toLowerCase_char ch =
     (case map_of (zip ''ABCDEFGHIJKLMNOPQRSTUVWXYZ'' ''abcdefghijklmnopqrstuvwxyz'') ch of
        Some l \<Rightarrow> l | None \<Rightarrow> ch)"

definition toLowerCase :: "string \<Rightarrow> string" where
  "toLowerCase s = map toLowerCase_char s"

text \<open>
  \<^verbatim>\<open>parseInt\<close> on a run of decimal digits, \<^verbatim>\<open>Number.prototype.toString\<close> on a
  natural number, and \<^verbatim>\<open>padStart(2, '0')\<close>.
\<close>

definition digit_value :: "char \<Rightarrow> nat" where
  "digit_value ch = (case map_of (zip ''0123456789'' [0, 1, 2, 3, 4, 5, 6, 7, 8, 9]) ch of
        Some v \<Rightarrow> v | None \<Rightarrow> 0)"

definition parseInt :: "string \<Rightarrow> nat" where
  "parseInt ds = foldl (\<lambda>n ch. 10 * n + digit_value ch) 0 ds"

fun toString :: "nat \<Rightarrow> string" where
  "toString n = (if n < 10 then [''0123456789'' ! n] else toString (n div 10) @ [''0123456789'' ! (n mod 10)])"

declare toString.simps [simp del]


text \<open>
  The regular expressions of the source are sequences of character classes under a
  greedy bounded repetition, some of them captured. \<open>Rep c lo hi cap\<close> is the class
  \<open>c\<close> repeated \<open>lo\<close> to \<open>hi\<close> times (\<open>None\<close>: unbounded). \<open>match_here\<close> matches
  at the start of the string as a backtracking matcher does: the longest repetition
  first, shorter ones when the rest fails; it returns the captured groups and the text
  after the match. \<open>rx_search\<close> is an unanchored search: the leftmost start that matches.
\<close>

datatype cls = Word | Digit | Space | Lit char

fun in_cls :: "cls \<Rightarrow> char \<Rightarrow> bool" where
  "in_cls Word ch = (is_lower ch \<or> is_upper ch \<or> is_digit ch \<or> ch = CHR ''_'')"
| "in_cls Digit ch = is_digit ch"
| "in_cls Space ch = is_space ch"
| "in_cls (Lit x) ch = (ch = x)"

datatype item = Rep cls nat "nat option" bool

primrec tries :: "nat \<Rightarrow> nat \<Rightarrow> nat list" where
  "tries lo 0 = [lo]"
| "tries lo (Suc k) = (lo + Suc k) # tries lo k"

definition counts :: "cls \<Rightarrow> nat \<Rightarrow> nat option \<Rightarrow> string \<Rightarrow> nat list" where
  "counts c lo hi s =
     (let avail = length (takeWhile (in_cls c) s);
          most = (case hi of None \<Rightarrow> avail | Some h \<Rightarrow> min h avail)
      in if most < lo then [] else tries lo (most - lo))"

fun first_some :: "'a option list \<Rightarrow> 'a option" where
  "first_some [] = None"
| "first_some (None # xs) = first_some xs"
| "first_some (Some x # xs) = Some x"

fun match_here :: "item list \<Rightarrow> string \<Rightarrow> (string list \<times> string) option" where
  "match_here [] s = Some ([], s)"
| "match_here (Rep c lo hi cap # its) s =
     first_some (map (\<lambda>n. case match_here its (drop n s) of
                            None \<Rightarrow> None
                          | Some (caps, rest) \<Rightarrow> Some ((if cap then [take n s] else []) @ caps, rest))
                     (counts c lo hi s))"

fun rx_search :: "item list \<Rightarrow> string \<Rightarrow> (string list \<times> string) option" where
  "rx_search its [] = match_here its []"
| "rx_search its (ch # s) =
     (case match_here its (ch # s) of Some r \<Rightarrow> Some r | None \<Rightarrow> rx_search its s)"







section \<open>PDF grid parser: dates and round types of a college entry (parseWithRegex)\<close>

text \<open>
  \<^verbatim>\<open>/(\d{1,2})\/(\d{1,2})\/(\d{4})/g\<close>, run over \<^verbatim>\<open>restOfLine\<close> by
  \<^verbatim>\<open>while ((match = regex.exec(restOfLine)) !== null)\<close>: each search starts where the
  last match ended. A date is kept when its year is in 2024..2027.
\<close>

definition slash_date_rx :: "item list" where
  "slash_date_rx = [Rep Digit 1 (Some 2) True, Rep (Lit CHR ''/'') 1 (Some 1) False,
                    Rep Digit 1 (Some 2) True, Rep (Lit CHR ''/'') 1 (Some 1) False,
                    Rep Digit 4 (Some 4) True]"












section \<open>Fetching a page (fetchPage)\<close>






section \<open>The crawl run: workers, batches and the run log (runCrawler, initialize)\<close>

text \<open>
  A row of \<^verbatim>\<open>crawl_logs\<close>. \<^verbatim>\<open>details\<close> is a JSON object, kept as the list of its
  members.
\<close>

datatype json = JString string | JNumber nat

record crawl_log =
  log_id :: nat
  run_started_at :: nat
  run_finished_at :: "nat option"
  colleges_attempted :: nat
  colleges_successful :: nat
  colleges_failed :: nat
  details :: "(string \<times> json) list option"

text \<open>
  \<^verbatim>\<open>INSERT INTO crawl_logs (run_started_at, colleges_attempted, colleges_successful,
  colleges_failed) VALUES ($1, 0, 0, 0) RETURNING id\<close>, and an \<^verbatim>\<open>UPDATE crawl_logs ... WHERE id = $n\<close>.
\<close>

definition next_log_id :: "crawl_log list \<Rightarrow> nat" where
  "next_log_id logs = Suc (foldr max (map log_id logs) 0)"

definition insert_crawl_log :: "nat \<Rightarrow> crawl_log list \<Rightarrow> crawl_log list" where
  "insert_crawl_log startTime logs =
     logs @ [\<lparr>log_id = next_log_id logs, run_started_at = startTime, run_finished_at = None,
              colleges_attempted = 0, colleges_successful = 0, colleges_failed = 0, details = None\<rparr>]"

definition update_log :: "nat \<Rightarrow> (crawl_log \<Rightarrow> crawl_log) \<Rightarrow> crawl_log list \<Rightarrow> crawl_log list" where
  "update_log i f logs = map (\<lambda>l. if log_id l = i then f l else l) logs"

text \<open>
  A row of \<^verbatim>\<open>colleges\<close> as the crawler selects it (those with an admissions URL), and
  what \<^verbatim>\<open>processCollege\<close> returns for it.
\<close>

record college_row =
  cid :: nat
  name :: string
  short_name :: "string option"
  admissions_url :: string

record crawl_result =
  success :: bool
  college :: string
  rounds :: "round_type list"
  error :: "string option"

text \<open>
  \<^verbatim>\<open>processCollege\<close>: the try block calls \<^verbatim>\<open>parseAdmissionsPage\<close> (an argument here:
  \<open>Inl\<close> the message of the error it throws, \<open>Inr\<close> the rounds it found, in the order of
  \<^verbatim>\<open>Object.entries\<close>) and reconciles each round; the catch block turns any error into a
  result with \<^verbatim>\<open>success: false\<close>.
\<close>

definition processCollege :: "(string \<Rightarrow> string \<Rightarrow> string \<Rightarrow> string + (round_type \<times> DeadlineData) list) \<Rightarrow> nat \<Rightarrow> college_round list \<Rightarrow> college_row \<Rightarrow> string \<Rightarrow> college_round list \<times> crawl_result" where
  "processCollege parseAdmissionsPage now rows c currentCycle =
     (case parseAdmissionsPage (admissions_url c) currentCycle (name c) of
        Inl errorMsg \<Rightarrow>
          (rows, \<lparr>success = False, college = name c, rounds = [], error = Some errorMsg\<rparr>)
      | Inr deadlines \<Rightarrow>
          (fst (processCollege_rounds now rows (cid c) currentCycle deadlines),
           \<lparr>success = True, college = name c, rounds = map fst deadlines, error = None\<rparr>))"

definition CONCURRENCY :: nat where
  "CONCURRENCY = 10"

text \<open>
  \<^verbatim>\<open>Promise.all(batch.map(...))\<close>: the results come in the order of the batch. The
  colleges of a batch work on rows of different colleges; the model runs them one after
  the other.
\<close>

fun processBatch :: "(string \<Rightarrow> string \<Rightarrow> string \<Rightarrow> string + (round_type \<times> DeadlineData) list) \<Rightarrow> nat \<Rightarrow> string \<Rightarrow> college_round list \<Rightarrow> college_row list \<Rightarrow> college_round list \<times> crawl_result list" where
  "processBatch page now currentCycle rows [] = (rows, [])"
| "processBatch page now currentCycle rows (c # batch) =
     (let (rows1, result) = processCollege page now rows c currentCycle;
          (rows2, results) = processBatch page now currentCycle rows1 batch
      in (rows2, result # results))"

text \<open>
  The local variables of \<^verbatim>\<open>runCrawler\<close> with the two tables. \<open>checkpoints\<close> lists the
  parameters of each \<^verbatim>\<open>UPDATE crawl_logs SET colleges_attempted = $1, colleges_successful = $2,
  colleges_failed = $3 WHERE id = $4\<close> sent after a batch.
\<close>

record run_state =
  rs_rounds :: "college_round list"
  rs_logs :: "crawl_log list"
  completed :: nat
  successful :: nat
  failed :: nat
  rs_errors :: "(string \<times> string) list"
  foundDeadlines :: "(string \<times> round_type list) list"
  checkpoints :: "(nat \<times> nat \<times> nat) list"

fun aggregate :: "run_state \<Rightarrow> crawl_result list \<Rightarrow> run_state" where
  "aggregate st [] = st"
| "aggregate st (result # results) =
     aggregate
       (if success result
        then st\<lparr>completed := completed st + 1, successful := successful st + 1,
                 foundDeadlines := (if length (rounds result) > 0
                                    then foundDeadlines st @ [(college result, rounds result)]
                                    else foundDeadlines st)\<rparr>
        else st\<lparr>completed := completed st + 1, failed := failed st + 1,
                 rs_errors := (case error result of
                                 None \<Rightarrow> rs_errors st
                               | Some e \<Rightarrow> if e = [] then rs_errors st else rs_errors st @ [(college result, e)])\<rparr>)
       results"

definition update_progress :: "nat \<Rightarrow> run_state \<Rightarrow> run_state" where
  "update_progress logId st =
     st\<lparr>rs_logs := update_log logId
                       (\<lambda>l. l\<lparr>colleges_attempted := completed st, colleges_successful := successful st,
                                colleges_failed := failed st\<rparr>) (rs_logs st),
        checkpoints := checkpoints st @ [(completed st, successful st, failed st)]\<rparr>"

text \<open>\<^verbatim>\<open>for (let i = 0; i < colleges.length; i += CONCURRENCY)\<close>.\<close>

function runCrawler_batches :: "(string \<Rightarrow> string \<Rightarrow> string \<Rightarrow> string + (round_type \<times> DeadlineData) list) \<Rightarrow> nat \<Rightarrow> string \<Rightarrow> nat \<Rightarrow> college_row list \<Rightarrow> nat \<Rightarrow> run_state \<Rightarrow> run_state" where
  "runCrawler_batches page now currentCycle logId colleges i st =
     (if i < length colleges
      then (let batch = take CONCURRENCY (drop i colleges);
                (rows, results) = processBatch page now currentCycle (rs_rounds st) batch;
                st1 = aggregate (st\<lparr>rs_rounds := rows\<rparr>) results;
                st2 = update_progress logId st1
            in runCrawler_batches page now currentCycle logId colleges (i + CONCURRENCY) st2)
      else st)"
  by pat_completeness auto

termination
  by (relation "measure (\<lambda>(page, now, currentCycle, logId, colleges, i, st). length colleges - i)")
     (auto simp: CONCURRENCY_def)

declare runCrawler_batches.simps [simp del]

definition finalizeCrawlLog :: "nat \<Rightarrow> nat \<Rightarrow> string option \<Rightarrow> run_state \<Rightarrow> run_state" where
  "finalizeCrawlLog now logId err st =
     st\<lparr>rs_logs := update_log logId
        (\<lambda>l. l\<lparr>run_finished_at := Some now,
                 colleges_attempted := completed st, colleges_successful := successful st,
                 colleges_failed := failed st,
                 details := Some ((case err of None \<Rightarrow> [] | Some e \<Rightarrow> if e = [] then [] else [(''error'', JString e)])
                                  @ [(''completed'', JNumber (completed st)),
                                     (''successful'', JNumber (successful st)),
                                     (''failed'', JNumber (failed st))])\<rparr>)
        (rs_logs st)\<rparr>"

text \<open>
  \<^verbatim>\<open>runCrawler\<close>: the log entry is created first, unconditionally; then the batches; then
  \<^verbatim>\<open>finalizeCrawlLog()\<close>. The cycle and the selected colleges are arguments.
\<close>

definition runCrawler :: "(string \<Rightarrow> string \<Rightarrow> string \<Rightarrow> string + (round_type \<times> DeadlineData) list) \<Rightarrow> nat \<Rightarrow> string \<Rightarrow> college_row list \<Rightarrow> college_round list \<Rightarrow> crawl_log list \<Rightarrow> run_state" where
  "runCrawler page now currentCycle colleges rows logs =
     (let logId = next_log_id logs;
          st0 = \<lparr>rs_rounds = rows, rs_logs = insert_crawl_log now logs,
                 completed = 0, successful = 0, failed = 0, rs_errors = [], foundDeadlines = [],
                 checkpoints = []\<rparr>;
          st1 = runCrawler_batches page now currentCycle logId colleges 0 st0
      in finalizeCrawlLog now logId None st1)"

text \<open>
  For the statements about a run: the colleges whose page fails; a checkpoint whose
  successful and failed counts add up to its attempted count; and two versions of a log
  row that differ at most in the three counters, and only if the row is the run's own.
\<close>

definition page_fails :: "(string \<Rightarrow> string \<Rightarrow> string \<Rightarrow> string + (round_type \<times> DeadlineData) list) \<Rightarrow> string \<Rightarrow> college_row \<Rightarrow> bool" where
  "page_fails page currentCycle c = isl (page (admissions_url c) currentCycle (name c))"

definition checkpoint_ok :: "nat \<times> nat \<times> nat \<Rightarrow> bool" where
  "checkpoint_ok cp = (case cp of (attempted, succeeded, failures) \<Rightarrow> succeeded + failures = attempted)"

definition counters_only :: "nat \<Rightarrow> crawl_log \<Rightarrow> crawl_log \<Rightarrow> bool" where
  "counters_only logId l l' =
     (if log_id l = logId
      then (\<exists>a s f. l' = l\<lparr>colleges_attempted := a, colleges_successful := s, colleges_failed := f\<rparr>)
      else l' = l)"

text \<open>
  \<^verbatim>\<open>cleanupStaleCrawlLogs\<close>: \<^verbatim>\<open>UPDATE crawl_logs SET run_finished_at = NOW(), details =
  COALESCE(details::text, '{}')::jsonb || '{"error": ...}'::jsonb WHERE run_finished_at IS NULL
  AND run_started_at < NOW() - INTERVAL '30 minutes'\<close>.
\<close>

definition stale_error :: string where
  "stale_error = ''Stale crawl - marked as failed on startup''"

definition is_stale :: "nat \<Rightarrow> crawl_log \<Rightarrow> bool" where
  "is_stale now l = (run_finished_at l = None \<and> int (run_started_at l) < int now - 30 * 60)"

definition jsonb_concat :: "(string \<times> json) list \<Rightarrow> (string \<times> json) list \<Rightarrow> (string \<times> json) list" where
  "jsonb_concat a b = foldl (\<lambda>obj kv. AList.update (fst kv) (snd kv) obj) a b"

definition mark_stale :: "nat \<Rightarrow> crawl_log \<Rightarrow> crawl_log" where
  "mark_stale now l =
     l\<lparr>run_finished_at := Some now,
       details := Some (jsonb_concat (case details l of None \<Rightarrow> [] | Some d \<Rightarrow> d)
                                     [(''error'', JString stale_error)])\<rparr>"

definition cleanupStaleCrawlLogs :: "nat \<Rightarrow> crawl_log list \<Rightarrow> crawl_log list" where
  "cleanupStaleCrawlLogs now logs = map (\<lambda>l. if is_stale now l then mark_stale now l else l) logs"

text \<open>
  \<^verbatim>\<open>initialize\<close>: the cleanup, then the startup import when the table of deadlines is empty
  or small (an argument here: it writes deadlines only), then \<^verbatim>\<open>cron.schedule\<close>. The
  scheduled job is the only caller of \<^verbatim>\<open>runCrawler\<close> in the crawler service.
\<close>

definition hasDeadlineData :: "string + nat \<Rightarrow> bool" where
  "hasDeadlineData result = (case result of Inl err \<Rightarrow> False | Inr count \<Rightarrow> count > 0)"

record service =
  sv_rounds :: "college_round list"
  sv_logs :: "crawl_log list"
  sv_cron :: bool

definition initialize :: "(college_round list \<Rightarrow> college_round list) \<Rightarrow> nat \<Rightarrow> service \<Rightarrow> service" where
  "initialize executeDataImport now sv =
     (let logs1 = cleanupStaleCrawlLogs now (sv_logs sv);
          hasData = hasDeadlineData (count_college_rounds (sv_rounds sv));
          rounds1 = (if \<not> hasData then executeDataImport (sv_rounds sv)
                     else (let needsPdfImport = shouldImportPdf (count_college_rounds (sv_rounds sv))
                           in if needsPdfImport then executeDataImport (sv_rounds sv) else sv_rounds sv))
      in \<lparr>sv_rounds = rounds1, sv_logs = logs1, sv_cron = True\<rparr>)"

definition scheduled_update :: "(string \<Rightarrow> string \<Rightarrow> string \<Rightarrow> string + (round_type \<times> DeadlineData) list) \<Rightarrow> nat \<Rightarrow> string \<Rightarrow> college_row list \<Rightarrow> service \<Rightarrow> service" where
  "scheduled_update page now currentCycle colleges sv =
     (if sv_cron sv
      then (let st = runCrawler page now currentCycle colleges (sv_rounds sv) (sv_logs sv)
            in sv\<lparr>sv_rounds := rs_rounds st, sv_logs := rs_logs st\<rparr>)
      else sv)"

text \<open>
  What the cleanup does to a row, as a relation between the row before and after: a stale
  row gets the end time and the error member and keeps its other columns; any other row is
  unchanged.
\<close>

definition finalized_as_stale :: "nat \<Rightarrow> crawl_log \<Rightarrow> crawl_log \<Rightarrow> bool" where
  "finalized_as_stale now l l' =
     (if is_stale now l
      then run_finished_at l' = Some now
           \<and> (case details l' of None \<Rightarrow> False | Some d \<Rightarrow> map_of d ''error'' = Some (JString stale_error))
           \<and> log_id l' = log_id l \<and> run_started_at l' = run_started_at l
           \<and> colleges_attempted l' = colleges_attempted l
           \<and> colleges_successful l' = colleges_successful l
           \<and> colleges_failed l' = colleges_failed l
      else l' = l)"

text \<open>
  The backend route \<^verbatim>\<open>POST /run\<close> and its module variable \<^verbatim>\<open>isRunning\<close>. The handler
  runs up to its \<^verbatim>\<open>await pool.query(INSERT ...)\<close> (\<open>post_run_enter\<close>), and later resumes
  with the outcome of the insert (\<open>post_run_resume\<close>; \<open>Some\<close> an error when it failed).
\<close>

record backend =
  isRunning :: bool
  be_logs :: "crawl_log list"

datatype reply = Status nat string | Json crawl_log

definition post_run_enter :: "backend \<Rightarrow> reply option \<times> backend" where
  "post_run_enter b =
     (if isRunning b then (Some (Status 400 ''Crawler is already running''), b)
      else (None, b\<lparr>isRunning := True\<rparr>))"

definition post_run_resume :: "nat \<Rightarrow> string option \<Rightarrow> backend \<Rightarrow> reply \<times> backend" where
  "post_run_resume startTime failure b =
     (case failure of
        None \<Rightarrow>
          (Json \<lparr>log_id = next_log_id (be_logs b), run_started_at = startTime, run_finished_at = None,
                  colleges_attempted = 0, colleges_successful = 0, colleges_failed = 0, details = None\<rparr>,
           b\<lparr>isRunning := False, be_logs := insert_crawl_log startTime (be_logs b)\<rparr>)
      | Some err \<Rightarrow> (Status 500 ''Failed to run crawler'', b\<lparr>isRunning := False\<rparr>))"

section \<open>College name matcher (matchColleges)\<close>













section \<open>Date parser (parseDate)\<close>

text \<open>
  The runtime's \<^verbatim>\<open>Date\<close>, as far as \<^verbatim>\<open>parseDate\<close> uses it. A date is invalid or holds
  a time value, the milliseconds since 1970-01-01T00:00Z. \<open>days_from_civil\<close> and
  \<open>civil_from_days\<close> convert between a day number and a date of the proleptic Gregorian
  calendar (months and days counted from 1).
\<close>

datatype js_date = InvalidDate | ValidDate int

definition days_from_civil :: "int \<Rightarrow> int \<Rightarrow> int \<Rightarrow> int" where
  "days_from_civil y m d =
     (let y' = (if m \<le> 2 then y - 1 else y);
          era = y' div 400;
          yoe = y' - era * 400;
          doy = (153 * (if m > 2 then m - 3 else m + 9) + 2) div 5 + d - 1;
          doe = yoe * 365 + yoe div 4 - yoe div 100 + doy
      in era * 146097 + doe - 719468)"

definition civil_from_days :: "int \<Rightarrow> int \<times> int \<times> int" where
  "civil_from_days z =
     (let z' = z + 719468;
          era = z' div 146097;
          doe = z' - era * 146097;
          yoe = (doe - doe div 1460 + doe div 36524 - doe div 146096) div 365;
          doy = doe - (365 * yoe + yoe div 4 - yoe div 100);
          mp = (5 * doy + 2) div 153;
          d = doy - (153 * mp + 2) div 5 + 1;
          m = (if mp < 10 then mp + 3 else mp - 9);
          y = yoe + era * 400 + (if m \<le> 2 then 1 else 0)
      in (y, m, d))"

definition msPerDay :: int where
  "msPerDay = 86400000"

definition MakeDate :: "int \<Rightarrow> int \<Rightarrow> int \<Rightarrow> int" where
  "MakeDate y m d = (days_from_civil y m 1 + (d - 1)) * msPerDay"

text \<open>
  \<^verbatim>\<open>new Date(string)\<close> on the strings \<^verbatim>\<open>parseDate\<close> builds, as Node's engine reads them:
  a word of letters names a month by its first three letters; a day is 1..31 and a day beyond
  the month's end rolls over; a number that cannot be a day is taken as the year; years
  0..99 are in 1950..2049; a named or slash date is a local time (\<open>tz\<close> is the zone's offset
  from UTC in minutes, east positive), a \<^verbatim>\<open>YYYY-MM-DD\<close> date is UTC. A string of any
  other shape, or whose word is not made of letters or names no month, is an invalid date
  here (the engine reads some of those as dates).
\<close>

definition month_of_word :: "string \<Rightarrow> int option" where
  "month_of_word w =
     (if length w \<ge> 3 \<and> list_all (\<lambda>ch. is_lower ch \<or> is_upper ch) w
      then map_of (zip [''jan'', ''feb'', ''mar'', ''apr'', ''may'', ''jun'',
                        ''jul'', ''aug'', ''sep'', ''oct'', ''nov'', ''dec'']
                       [1, 2, 3, 4, 5, 6, 7, 8, 9, 10, 11, 12])
                  (toLowerCase (take 3 w))
      else None)"

definition IsDay :: "int \<Rightarrow> bool" where
  "IsDay x = (1 \<le> x \<and> x \<le> 31)"

definition IsMonth :: "int \<Rightarrow> bool" where
  "IsMonth x = (1 \<le> x \<and> x \<le> 12)"

definition legacy_year :: "int \<Rightarrow> int" where
  "legacy_year y = (if 0 \<le> y \<and> y \<le> 49 then y + 2000 else if 50 \<le> y \<and> y \<le> 99 then y + 1900 else y)"

definition local_date :: "int \<Rightarrow> int \<Rightarrow> int \<Rightarrow> int \<Rightarrow> js_date" where
  "local_date tz y m d =
     (if IsMonth m \<and> IsDay d then ValidDate (MakeDate (legacy_year y) m d - tz * 60000) else InvalidDate)"

definition named_date_rx :: "item list" where
  "named_date_rx = [Rep Word 1 None True, Rep (Lit CHR '' '') 1 (Some 1) False, Rep Digit 1 None True,
                    Rep (Lit CHR '','') 1 (Some 1) False, Rep (Lit CHR '' '') 1 (Some 1) False,
                    Rep Digit 1 None True]"

definition named_day_rx :: "item list" where
  "named_day_rx = [Rep Word 1 None True, Rep (Lit CHR '' '') 1 (Some 1) False, Rep Digit 1 None True]"

definition iso_date_rx :: "item list" where
  "iso_date_rx = [Rep Digit 4 (Some 4) True, Rep (Lit CHR ''-'') 1 (Some 1) False,
                  Rep Digit 2 (Some 2) True, Rep (Lit CHR ''-'') 1 (Some 1) False,
                  Rep Digit 2 (Some 2) True]"

definition new_Date :: "int \<Rightarrow> string \<Rightarrow> js_date" where
  "new_Date tz s =
     (case match_here named_date_rx s of
        Some ([w, a, b], []) \<Rightarrow>
          (case month_of_word w of
             None \<Rightarrow> InvalidDate
           | Some m \<Rightarrow>
               if \<not> IsDay (int (parseInt a)) then local_date tz (int (parseInt a)) m (int (parseInt b))
               else local_date tz (int (parseInt b)) m (int (parseInt a)))
      | _ \<Rightarrow>
     (case match_here named_day_rx s of
        Some ([w, a], []) \<Rightarrow>
          (case month_of_word w of
             None \<Rightarrow> InvalidDate
           | Some m \<Rightarrow>
               if \<not> IsDay (int (parseInt a)) then local_date tz (int (parseInt a)) m 1
               else local_date tz 1 m (int (parseInt a)))
      | _ \<Rightarrow>
     (case match_here slash_date_rx s of
        Some ([a, b, c], []) \<Rightarrow>
          if \<not> IsDay (int (parseInt a))
          then local_date tz (int (parseInt a)) (int (parseInt b)) (int (parseInt c))
          else local_date tz (int (parseInt c)) (int (parseInt a)) (int (parseInt b))
      | _ \<Rightarrow>
     (case match_here iso_date_rx s of
        Some ([y, m, d], []) \<Rightarrow>
          if IsMonth (int (parseInt m)) \<and> IsDay (int (parseInt d))
          then ValidDate (MakeDate (int (parseInt y)) (int (parseInt m)) (int (parseInt d)))
          else InvalidDate
      | _ \<Rightarrow> InvalidDate))))"

text \<open>
  \<^verbatim>\<open>getMonth()\<close> (local, \<open>None\<close> for NaN) and \<^verbatim>\<open>toISOString()\<close> (UTC) of a valid date;
  \<^verbatim>\<open>toISOString()\<close> of an invalid date throws a RangeError.
\<close>

definition getMonth :: "int \<Rightarrow> js_date \<Rightarrow> nat option" where
  "getMonth tz date =
     (case date of
        InvalidDate \<Rightarrow> None
      | ValidDate t \<Rightarrow> (case civil_from_days ((t + tz * 60000) div msPerDay) of (y, m, d) \<Rightarrow> Some (nat (m - 1))))"

definition padStart :: "nat \<Rightarrow> string \<Rightarrow> string" where
  "padStart n s = replicate (n - length s) CHR ''0'' @ s"

definition toISOString :: "int \<Rightarrow> string" where
  "toISOString t =
     (case civil_from_days (t div msPerDay) of
        (y, m, d) \<Rightarrow>
          (let ms = t mod msPerDay
           in (if 0 \<le> y \<and> y \<le> 9999 then padStart 4 (toString (nat y))
               else (if y < 0 then ''-'' else ''+'') @ padStart 6 (toString (nat \<bar>y\<bar>)))
              @ ''-'' @ padStart 2 (toString (nat m)) @ ''-'' @ padStart 2 (toString (nat d))
              @ ''T'' @ padStart 2 (toString (nat (ms div 3600000)))
              @ '':'' @ padStart 2 (toString (nat (ms div 60000 mod 60)))
              @ '':'' @ padStart 2 (toString (nat (ms div 1000 mod 60)))
              @ ''.'' @ padStart 3 (toString (nat (ms mod 1000))) @ ''Z''))"

text \<open>
  \<^verbatim>\<open>parseDate\<close>. The patterns are \<^verbatim>\<open>/(\w+)\s+(\d{1,2}),?\s+(\d{4})/\<close>,
  \<^verbatim>\<open>/(\w+)\s+(\d{1,2})/\<close>, \<^verbatim>\<open>/(\d{1,2})\/(\d{1,2})\/(\d{4})/\<close> and
  \<^verbatim>\<open>/(\d{4})-(\d{2})-(\d{2})/\<close>. After the first and after the second pattern the code
  calls \<^verbatim>\<open>log(..., { ..., parsed: date.toISOString() })\<close>: on an invalid date that throws
  inside the \<^verbatim>\<open>try\<close>, and the \<^verbatim>\<open>catch\<close> makes the function return null. The result
  \<open>None\<close> is null.
\<close>

definition full_date_rx :: "item list" where
  "full_date_rx = [Rep Word 1 None True, Rep Space 1 None False, Rep Digit 1 (Some 2) True,
                   Rep (Lit CHR '','') 0 (Some 1) False, Rep Space 1 None False, Rep Digit 4 (Some 4) True]"

definition partial_date_rx :: "item list" where
  "partial_date_rx = [Rep Word 1 None True, Rep Space 1 None False, Rep Digit 1 (Some 2) True]"

definition unparsed :: "js_date option \<Rightarrow> bool" where
  "unparsed date = (date = None \<or> date = Some InvalidDate)"

definition parseDate :: "int \<Rightarrow> string \<Rightarrow> nat \<Rightarrow> string option" where
  "parseDate tz dateStr cycleStartYear =
     (let fullMatch = rx_search full_date_rx dateStr;
          date1 = (case fullMatch of
                     Some ([w, d, y], rest) \<Rightarrow> Some (new_Date tz (w @ '' '' @ d @ '', '' @ y))
                   | _ \<Rightarrow> None)
      in if fullMatch \<noteq> None \<and> date1 = Some InvalidDate then None
         else
           (let partialMatch = (if unparsed date1 then rx_search partial_date_rx dateStr else None);
                date2 = (case partialMatch of
                           Some ([w, d], rest) \<Rightarrow>
                             (let month = getMonth tz (new_Date tz (w @ '' 1''));
                                  year = (if (case month of None \<Rightarrow> False | Some m \<Rightarrow> m \<ge> 8)
                                          then cycleStartYear else cycleStartYear + 1)
                              in Some (new_Date tz (w @ '' '' @ d @ '', '' @ toString year)))
                         | _ \<Rightarrow> date1)
            in if partialMatch \<noteq> None \<and> date2 = Some InvalidDate then None
               else
                 (let date3 = (if unparsed date2
                               then (case rx_search slash_date_rx dateStr of
                                       Some ([m, d, y], rest) \<Rightarrow> Some (new_Date tz (m @ ''/'' @ d @ ''/'' @ y))
                                     | _ \<Rightarrow> date2)
                               else date2);
                      date4 = (if unparsed date3
                               then (case rx_search iso_date_rx dateStr of
                                       Some ([y, m, d], rest) \<Rightarrow> Some (new_Date tz (y @ ''-'' @ m @ ''-'' @ d))
                                     | _ \<Rightarrow> date3)
                               else date3)
                  in (case date4 of
                        Some (ValidDate t) \<Rightarrow> Some (takeWhile (\<lambda>ch. ch \<noteq> CHR ''T'') (toISOString t))
                      | _ \<Rightarrow> None))))"

section \<open>Sample data\<close>

definition harvard_ed :: college_round where
  "harvard_ed = \<lparr>row_id = 1, college_id = 7, round_type = ED, cycle = ''2025-2026'',
      deadline_date = Some ''2025-11-01'', decision_date = Some ''2025-12-15'', source = ADMIN,
      admin_confirmed = True, last_crawled_at = None\<rparr>"




definition sample_page :: "string \<Rightarrow> string \<Rightarrow> string \<Rightarrow> string + (round_type \<times> DeadlineData) list" where
  "sample_page url currentCycle label =
     (if url = ''https://down.example.edu'' then Inl ''HTTP 503''
      else Inr [(ED, \<lparr>dd_deadline_date = Some ''2025-11-01'', dd_decision_date = None\<rparr>)])"

definition sample_colleges :: "college_row list" where
  "sample_colleges =
     [\<lparr>cid = 1, name = ''Up College'', short_name = None, admissions_url = ''https://up.example.edu''\<rparr>,
      \<lparr>cid = 2, name = ''Down College'', short_name = None, admissions_url = ''https://down.example.edu''\<rparr>]"

definition old_run :: crawl_log where
  "old_run = \<lparr>log_id = 1, run_started_at = 1000, run_finished_at = None,
      colleges_attempted = 20, colleges_successful = 18, colleges_failed = 2, details = None\<rparr>"

definition recent_run :: crawl_log where
  "recent_run = \<lparr>log_id = 2, run_started_at = 4000, run_finished_at = None,
      colleges_attempted = 0, colleges_successful = 0, colleges_failed = 0, details = None\<rparr>"

definition stopped_service :: service where
  "stopped_service = \<lparr>sv_rounds = [], sv_logs = [old_run, recent_run], sv_cron = False\<rparr>"

definition busy_backend :: backend where
  "busy_backend = \<lparr>isRunning = True, be_logs = [recent_run]\<rparr>"



section \<open>Results\<close>

subsection \<open>Storage lemmas\<close>

lemma next_id_fresh: "r \<in> set rows \<Longrightarrow> row_id r < next_id rows"
  unfolding next_id_def by (induction rows) auto

lemma exec_ids:
  "map row_id (exec now rows s) = (case target s of Some i \<Rightarrow> map row_id rows | None \<Rightarrow> map row_id rows @ [next_id rows])"
  by (cases s) (auto simp: update_where_id_def)

lemma next_id_notin: "next_id rows \<notin> row_id ` set rows"
  using next_id_fresh by fastforce

lemma exec_distinct: "distinct (map row_id rows) \<Longrightarrow> distinct (map row_id (exec now rows s))"
  by (cases "target s") (simp_all add: exec_ids next_id_notin)

lemma exec_keeps:
  "x \<in> set rows \<Longrightarrow> target s \<noteq> Some (row_id x) \<Longrightarrow> x \<in> set (exec now rows s)"
  by (cases s) (auto simp: update_where_id_def)

lemma foldl_exec_distinct:
  "distinct (map row_id rows) \<Longrightarrow> distinct (map row_id (foldl (exec now) rows ss))"
  by (induction ss arbitrary: rows) (auto simp: exec_distinct)

lemma foldl_exec_keeps:
  "x \<in> set rows \<Longrightarrow> spares x ss \<Longrightarrow> x \<in> set (foldl (exec now) rows ss)"
  by (induction ss arbitrary: rows) (auto simp: exec_keeps spares_def)

lemma select_round_hd:
  "select_round rows c r y = e # es \<Longrightarrow> e \<in> set rows \<and> college_id e = c \<and> round_type e = r \<and> cycle e = y"
proof -
  assume a: "select_round rows c r y = e # es"
  have "e \<in> set (select_round rows c r y)" by (simp add: a)
  then show ?thesis by (simp add: select_round_def)
qed

lemma same_id:
  "distinct (map row_id rows) \<Longrightarrow> x \<in> set rows \<Longrightarrow> e \<in> set rows \<Longrightarrow> row_id e = row_id x \<Longrightarrow> e = x"
  by (simp add: distinct_map inj_on_def)

lemma unconfirmed_other_id:
  assumes "distinct (map row_id rows)" "x \<in> set rows" "admin_confirmed x"
    and "select_round rows c r y = e # es" "\<not> admin_confirmed e"
  shows "row_id e \<noteq> row_id x"
proof
  assume "row_id e = row_id x"
  moreover have "e \<in> set rows" using select_round_hd[OF assms(4)] by simp
  ultimately have "e = x" using same_id[OF assms(1,2)] by simp
  then show False using assms(3,5) by simp
qed

lemma processCollege_round_targets:
  assumes "s \<in> set (processCollege_round rows c y entry)"
  shows "target s = None \<or>
         (\<exists>e es. select_round rows c (fst entry) y = e # es \<and> \<not> admin_confirmed e \<and> target s = Some (row_id e))"
proof (cases "dd_deadline_date (snd entry)")
  case None
  with assms show ?thesis by (simp add: processCollege_round_def)
next
  case (Some d)
  show ?thesis
  proof (cases "select_round rows c (fst entry) y")
    case Nil
    with assms Some show ?thesis by (simp add: processCollege_round_def split: if_splits)
  next
    case (Cons e es)
    with assms Some show ?thesis by (auto simp: processCollege_round_def split: if_splits)
  qed
qed

lemma importFromPdf_deadline_targets:
  assumes "s \<in> set (fst (importFromPdf_deadline rows y m n dl))"
  shows "target s = None \<or>
         (\<exists>c e es. select_round rows c (roundType dl) y = e # es \<and> \<not> admin_confirmed e \<and> target s = Some (row_id e))"
proof (cases "m (collegeName dl)")
  case None
  with assms show ?thesis by (simp add: importFromPdf_deadline_def)
next
  case (Some c)
  show ?thesis
  proof (cases "select_round rows c (roundType dl) y")
    case Nil
    with assms Some show ?thesis by (simp add: importFromPdf_deadline_def split: if_splits)
  next
    case (Cons e es)
    with assms Some show ?thesis by (auto simp: importFromPdf_deadline_def split: if_splits)
  qed
qed

lemma processCollege_round_spares:
  assumes "distinct (map row_id rows)" "x \<in> set rows" "admin_confirmed x"
  shows "spares x (processCollege_round rows c y entry)"
  unfolding spares_def
proof
  fix s assume "s \<in> set (processCollege_round rows c y entry)"
  from processCollege_round_targets[OF this] unconfirmed_other_id[OF assms]
  show "target s \<noteq> Some (row_id x)" by auto
qed

lemma importFromPdf_deadline_spares:
  assumes "distinct (map row_id rows)" "x \<in> set rows" "admin_confirmed x"
  shows "spares x (fst (importFromPdf_deadline rows y m n dl))"
  unfolding spares_def
proof
  fix s assume "s \<in> set (fst (importFromPdf_deadline rows y m n dl))"
  from importFromPdf_deadline_targets[OF this] unconfirmed_other_id[OF assms]
  show "target s \<noteq> Some (row_id x)" by auto
qed

lemma processCollege_rounds_keeps:
  assumes "distinct (map row_id rows)" "x \<in> set rows" "admin_confirmed x"
  shows "x \<in> set (fst (processCollege_rounds now rows c y entries)) \<and> spares x (snd (processCollege_rounds now rows c y entries))"
  using assms
proof (induction entries arbitrary: rows)
  case Nil
  then show ?case by (simp add: spares_def)
next
  case (Cons e es)
  let ?ss = "processCollege_round rows c y e"
  let ?rows = "foldl (exec now) rows ?ss"
  have sp: "spares x ?ss" using Cons.prems by (rule processCollege_round_spares)
  have d: "distinct (map row_id ?rows)" using Cons.prems(1) by (rule foldl_exec_distinct)
  have k: "x \<in> set ?rows" using Cons.prems(2) sp by (rule foldl_exec_keeps)
  from Cons.IH[OF d k Cons.prems(3)] sp show ?case
    by (auto simp: spares_def Let_def split: prod.splits)
qed

lemma importFromPdf_loop_keeps:
  assumes "distinct (map row_id rows)" "x \<in> set rows" "admin_confirmed x"
  shows "x \<in> set (fst (importFromPdf_loop now rows y m n dls)) \<and> spares x (fst (snd (importFromPdf_loop now rows y m n dls)))"
  using assms
proof (induction dls arbitrary: rows n)
  case Nil
  then show ?case by (simp add: spares_def)
next
  case (Cons dl dls)
  let ?r = "importFromPdf_deadline rows y m n dl"
  let ?rows = "foldl (exec now) rows (fst ?r)"
  have sp: "spares x (fst ?r)" using Cons.prems by (rule importFromPdf_deadline_spares)
  have d: "distinct (map row_id ?rows)" using Cons.prems(1) by (rule foldl_exec_distinct)
  have k: "x \<in> set ?rows" using Cons.prems(2) sp by (rule foldl_exec_keeps)
  from Cons.IH[OF d k Cons.prems(3), of "snd ?r"] sp show ?case
    by (auto simp: spares_def Let_def split: prod.splits)
qed


lemma stored_Some: "stored rows c r y = Some x \<longleftrightarrow> (\<exists>xs. select_round rows c r y = x # xs)"
  by (auto simp: stored_def split: list.splits)

lemma stored_in: "stored rows c r y = Some x \<Longrightarrow> x \<in> set rows"
  using select_round_hd by (auto simp: stored_Some)

lemma select_update:
  assumes "\<And>z. college_id (f z) = college_id z \<and> round_type (f z) = round_type z \<and> cycle (f z) = cycle z"
  shows "select_round (update_where_id i f rows) c r y = update_where_id i f (select_round rows c r y)"
  using assms by (induction rows) (auto simp: select_round_def update_where_id_def)

lemma stored_update:
  assumes keys: "\<And>z. college_id (f z) = college_id z \<and> round_type (f z) = round_type z \<and> cycle (f z) = cycle z"
    and "stored rows c r y = Some x" and "i \<noteq> row_id x"
  shows "stored (update_where_id i f rows) c r y = Some x"
proof -
  from assms(2) obtain xs where sel: "select_round rows c r y = x # xs"
    by (auto simp: stored_Some)
  have "select_round (update_where_id i f rows) c r y = update_where_id i f (x # xs)"
    using select_update[OF keys] sel by simp
  also have "\<dots> = x # update_where_id i f xs"
    using assms(3) by (simp add: update_where_id_def)
  finally show ?thesis by (simp add: stored_def)
qed

lemma exec_stored:
  assumes "stored rows c r y = Some x" "target s \<noteq> Some (row_id x)"
  shows "stored (exec now rows s) c r y = Some x"
proof (cases s)
  case (UpdateCrawl d i)
  then show ?thesis using assms by (simp add: stored_update)
next
  case (UpdatePdf d i)
  then show ?thesis using assms by (simp add: stored_update)
next
  case (Touch i)
  then show ?thesis using assms by (simp add: stored_update)
next
  case (InsertRound c' r' y' d)
  from assms(1) obtain xs where sel: "select_round rows c r y = x # xs"
    by (auto simp: stored_Some)
  then show ?thesis using InsertRound by (simp add: stored_def select_round_def)
qed

lemma foldl_exec_stored:
  "stored rows c r y = Some x \<Longrightarrow> spares x ss \<Longrightarrow> stored (foldl (exec now) rows ss) c r y = Some x"
  by (induction ss arbitrary: rows) (auto simp: exec_stored spares_def)

lemma processCollege_rounds_stored:
  assumes "distinct (map row_id rows)" "stored rows c r y = Some x" "admin_confirmed x"
  shows "stored (fst (processCollege_rounds now rows c' y' entries)) c r y = Some x"
  using assms
proof (induction entries arbitrary: rows)
  case Nil
  then show ?case by simp
next
  case (Cons e es)
  let ?ss = "processCollege_round rows c' y' e"
  let ?rows = "foldl (exec now) rows ?ss"
  have sp: "spares x ?ss"
    using Cons.prems(1) stored_in[OF Cons.prems(2)] Cons.prems(3) by (rule processCollege_round_spares)
  have d: "distinct (map row_id ?rows)" using Cons.prems(1) by (rule foldl_exec_distinct)
  have k: "stored ?rows c r y = Some x" using Cons.prems(2) sp by (rule foldl_exec_stored)
  from Cons.IH[OF d k Cons.prems(3)] show ?case
    by (auto simp: Let_def split: prod.splits)
qed

lemma importFromPdf_loop_stored:
  assumes "distinct (map row_id rows)" "stored rows c r y = Some x" "admin_confirmed x"
  shows "stored (fst (importFromPdf_loop now rows y' m n dls)) c r y = Some x"
  using assms
proof (induction dls arbitrary: rows n)
  case Nil
  then show ?case by simp
next
  case (Cons dl dls)
  let ?r = "importFromPdf_deadline rows y' m n dl"
  let ?rows = "foldl (exec now) rows (fst ?r)"
  have sp: "spares x (fst ?r)"
    using Cons.prems(1) stored_in[OF Cons.prems(2)] Cons.prems(3) by (rule importFromPdf_deadline_spares)
  have d: "distinct (map row_id ?rows)" using Cons.prems(1) by (rule foldl_exec_distinct)
  have k: "stored ?rows c r y = Some x" using Cons.prems(2) sp by (rule foldl_exec_stored)
  from Cons.IH[OF d k Cons.prems(3), of "snd ?r"] show ?case
    by (auto simp: Let_def split: prod.splits)
qed

lemma processCollege_round_locked:
  "stored rows c r y = Some x \<Longrightarrow> admin_confirmed x \<Longrightarrow> processCollege_round rows c y (r, data) = []"
  by (auto simp: stored_Some processCollege_round_def split: option.splits)

lemma importFromPdf_deadline_locked:
  "stored rows c (roundType dl) y = Some x \<Longrightarrow> admin_confirmed x \<Longrightarrow> m (collegeName dl) = Some c \<Longrightarrow>
   fst (importFromPdf_deadline rows y m n dl) = []"
  by (auto simp: stored_Some importFromPdf_deadline_def)

text \<open>
  C1 (admin lock). Let the row stored for a key (college, round type, cycle) be
  admin-confirmed, in a table whose ids are distinct. Then reconciling a candidate for
  that key sends no statement at all, on the HTML-crawl path and on the PDF-import path;
  and after a whole \<^verbatim>\<open>processCollege\<close> loop or a whole \<^verbatim>\<open>importFromPdf\<close> loop,
  over any candidates, the key still stores the very same row (its deadline and decision
  dates included), and no statement sent names that row.
\<close>

theorem admin_lock_invariant:
  assumes "distinct (map row_id rows)"
    and "stored rows c r y = Some existing"
    and "admin_confirmed existing"
  shows "processCollege_round rows c y (r, data) = []
       \<and> (m (collegeName dl) = Some c \<and> roundType dl = r \<longrightarrow> fst (importFromPdf_deadline rows y m n dl) = [])
       \<and> stored (fst (processCollege_rounds now rows c' y' entries)) c r y = Some existing
       \<and> spares existing (snd (processCollege_rounds now rows c' y' entries))
       \<and> stored (fst (importFromPdf_loop now rows y' m n dls)) c r y = Some existing
       \<and> spares existing (fst (snd (importFromPdf_loop now rows y' m n dls)))"
proof -
  have mem: "existing \<in> set rows" using assms(2) by (rule stored_in)
  have 1: "processCollege_round rows c y (r, data) = []"
    using assms(2,3) by (rule processCollege_round_locked)
  have 2: "m (collegeName dl) = Some c \<and> roundType dl = r \<longrightarrow> fst (importFromPdf_deadline rows y m n dl) = []"
    using assms(2,3) importFromPdf_deadline_locked by blast
  have 3: "stored (fst (processCollege_rounds now rows c' y' entries)) c r y = Some existing"
    using assms by (rule processCollege_rounds_stored)
  have 4: "spares existing (snd (processCollege_rounds now rows c' y' entries))"
    using processCollege_rounds_keeps[OF assms(1) mem assms(3)] by simp
  have 5: "stored (fst (importFromPdf_loop now rows y' m n dls)) c r y = Some existing"
    using assms by (rule importFromPdf_loop_stored)
  have 6: "spares existing (fst (snd (importFromPdf_loop now rows y' m n dls)))"
    using importFromPdf_loop_keeps[OF assms(1) mem assms(3)] by simp
  from 1 2 3 4 5 6 show ?thesis by blast
qed

theorem admin_lock_invariant_witness:
  "distinct (map row_id [harvard_ed]) \<and> stored [harvard_ed] 7 ED ''2025-2026'' = Some harvard_ed
   \<and> admin_confirmed harvard_ed
   \<and> processCollege_round [harvard_ed] 7 ''2025-2026''
        (ED, \<lparr>dd_deadline_date = Some ''2025-11-15'', dd_decision_date = None\<rparr>) = []
   \<and> fst (importFromPdf_deadline [harvard_ed] ''2025-2026'' [''Harvard University'' \<mapsto> 7]
        \<lparr>imported = 0, skipped = 0, errors = 0\<rparr>
        \<lparr>collegeName = ''Harvard University'', roundType = ED, deadlineDate = ''2025-11-15''\<rparr>) = []
   \<and> stored (fst (processCollege_rounds 100 [harvard_ed] 7 ''2025-2026''
        [(ED, \<lparr>dd_deadline_date = Some ''2025-11-15'', dd_decision_date = None\<rparr>),
         (RD, \<lparr>dd_deadline_date = Some ''2026-01-01'', dd_decision_date = None\<rparr>)])) 7 ED ''2025-2026'' = Some harvard_ed
   \<and> stored (fst (importFromPdf_loop 100 [harvard_ed] ''2025-2026'' [''Harvard University'' \<mapsto> 7]
        \<lparr>imported = 0, skipped = 0, errors = 0\<rparr>
        [\<lparr>collegeName = ''Harvard University'', roundType = ED, deadlineDate = ''2025-11-15''\<rparr>,
         \<lparr>collegeName = ''Harvard University'', roundType = RD, deadlineDate = ''2026-01-01''\<rparr>])) 7 ED ''2025-2026'' = Some harvard_ed"
proof -
  have h1: "distinct (map row_id [harvard_ed])" by simp
  have h2: "stored [harvard_ed] 7 ED ''2025-2026'' = Some harvard_ed"
    by (simp add: stored_def select_round_def harvard_ed_def)
  have h3: "admin_confirmed harvard_ed" by (simp add: harvard_ed_def)
  have m: "[''Harvard University'' \<mapsto> (7::nat)] (collegeName \<lparr>collegeName = ''Harvard University'', roundType = ED, deadlineDate = ''2025-11-15''\<rparr>) = Some 7
      \<and> roundType \<lparr>collegeName = ''Harvard University'', roundType = ED, deadlineDate = ''2025-11-15''\<rparr> = ED"
    by simp
  note t = admin_lock_invariant[OF h1 h2 h3, of
        "\<lparr>dd_deadline_date = Some ''2025-11-15'', dd_decision_date = None\<rparr>"
        "[''Harvard University'' \<mapsto> 7]"
        "\<lparr>collegeName = ''Harvard University'', roundType = ED, deadlineDate = ''2025-11-15''\<rparr>"
        "\<lparr>imported = 0, skipped = 0, errors = 0\<rparr>" 100 7 "''2025-2026''"
        "[(ED, \<lparr>dd_deadline_date = Some ''2025-11-15'', dd_decision_date = None\<rparr>),
         (RD, \<lparr>dd_deadline_date = Some ''2026-01-01'', dd_decision_date = None\<rparr>)]"
        "[\<lparr>collegeName = ''Harvard University'', roundType = ED, deadlineDate = ''2025-11-15''\<rparr>,
         \<lparr>collegeName = ''Harvard University'', roundType = RD, deadlineDate = ''2026-01-01''\<rparr>]"]
  from h1 h2 h3 m t show ?thesis by blast
qed


subsection \<open>Reconciling twice\<close>









subsection \<open>Round types inferred from the PDF grid\<close>










text \<open>
  C10. \<^verbatim>\<open>shouldImportPdf\<close> answers true exactly when the table holds fewer than 50
  deadline rows (of any college, round and cycle); it answers false for 50 rows or more,
  and false, without throwing, when the count query fails.
\<close>

theorem shouldImportPdf_threshold:
  "shouldImportPdf (count_college_rounds rows) = (length rows < 50)
   \<and> shouldImportPdf (Inr n) = (n < 50)
   \<and> shouldImportPdf (Inl err) = False"
  by (simp add: shouldImportPdf_def count_college_rounds_def)

subsection \<open>Fetching\<close>










subsection \<open>The crawl run\<close>

lemma processCollege_success:
  "success (snd (processCollege page now rows c currentCycle)) = (\<not> page_fails page currentCycle c)"
  by (simp add: processCollege_def page_fails_def split: sum.splits)

lemma processBatch_success:
  "map success (snd (processBatch page now currentCycle rows batch))
     = map (\<lambda>c. \<not> page_fails page currentCycle c) batch"
proof (induction batch arbitrary: rows)
  case Nil
  then show ?case by simp
next
  case (Cons c batch)
  obtain rows1 result where p: "processCollege page now rows c currentCycle = (rows1, result)"
    by (cases "processCollege page now rows c currentCycle")
  obtain rows2 results where b: "processBatch page now currentCycle rows1 batch = (rows2, results)"
    by (cases "processBatch page now currentCycle rows1 batch")
  have "success result = (\<not> page_fails page currentCycle c)"
    using processCollege_success[of page now rows c currentCycle] p by simp
  moreover have "map success results = map (\<lambda>c. \<not> page_fails page currentCycle c) batch"
    using Cons.IH[of rows1] b by simp
  ultimately show ?case using p b by simp
qed

lemma aggregate_counts:
  "completed (aggregate st results) = completed st + length results
   \<and> successful (aggregate st results) = successful st + length (filter id (map success results))
   \<and> failed (aggregate st results) = failed st + length (filter Not (map success results))
   \<and> checkpoints (aggregate st results) = checkpoints st
   \<and> rs_logs (aggregate st results) = rs_logs st"
  by (induction results arbitrary: st) auto

lemma filter_Not_map: "length (filter Not (map (\<lambda>c. \<not> P c) xs)) = length (filter P xs)"
  by (induction xs) auto

lemma filter_id_Not: "length (filter id bs) + length (filter Not bs) = length bs"
  by (induction bs) auto

lemma take_next_batch: "take (i + n) xs = take i xs @ take n (drop i xs)"
  by (simp add: take_add)

lemma runCrawler_batches_accounting:
  assumes "completed st = min i (length colleges)"
    and "successful st + failed st = completed st"
    and "failed st = length (filter (page_fails page currentCycle) (take i colleges))"
    and "\<forall>cp \<in> set (checkpoints st). checkpoint_ok cp"
  shows "completed (runCrawler_batches page now currentCycle logId colleges i st) = length colleges
       \<and> successful (runCrawler_batches page now currentCycle logId colleges i st)
         + failed (runCrawler_batches page now currentCycle logId colleges i st) = length colleges
       \<and> failed (runCrawler_batches page now currentCycle logId colleges i st)
         = length (filter (page_fails page currentCycle) colleges)
       \<and> (\<forall>cp \<in> set (checkpoints (runCrawler_batches page now currentCycle logId colleges i st)). checkpoint_ok cp)"
  using assms
proof (induction page now currentCycle logId colleges i st rule: runCrawler_batches.induct)
  case (1 page now currentCycle logId colleges i st)
  show ?case
  proof (cases "i < length colleges")
    case False
    then have "runCrawler_batches page now currentCycle logId colleges i st = st"
      by (subst runCrawler_batches.simps) simp
    with False "1.prems" show ?thesis by simp
  next
    case True
    let ?batch = "take CONCURRENCY (drop i colleges)"
    obtain rows results where pb: "processBatch page now currentCycle (rs_rounds st) ?batch = (rows, results)"
      by (cases "processBatch page now currentCycle (rs_rounds st) ?batch")
    let ?st1 = "aggregate (st\<lparr>rs_rounds := rows\<rparr>) results"
    let ?st2 = "update_progress logId ?st1"
    have step: "runCrawler_batches page now currentCycle logId colleges i st
                = runCrawler_batches page now currentCycle logId colleges (i + CONCURRENCY) ?st2"
      using True pb by (subst runCrawler_batches.simps) (simp add: Let_def)
    have succ: "map success results = map (\<lambda>c. \<not> page_fails page currentCycle c) ?batch"
      using processBatch_success[of page now currentCycle "rs_rounds st" ?batch] pb by simp
    then have len: "length results = length ?batch"
      by (metis length_map)
    note ag = aggregate_counts[of "st\<lparr>rs_rounds := rows\<rparr>" results]
    have c1: "completed ?st1 = min (i + CONCURRENCY) (length colleges)"
    proof -
      have "completed ?st1 = completed st + length results" using ag by simp
      also have "\<dots> = min i (length colleges) + min CONCURRENCY (length colleges - i)"
        using "1.prems"(1) len by simp
      also have "\<dots> = min (i + CONCURRENCY) (length colleges)"
        using True by linarith
      finally show ?thesis .
    qed
    have nf: "length (filter Not (map success results)) = length (filter (page_fails page currentCycle) ?batch)"
      by (simp only: succ filter_Not_map)
    have f1: "failed ?st1 = length (filter (page_fails page currentCycle) (take (i + CONCURRENCY) colleges))"
    proof -
      have "failed ?st1 = failed st + length (filter Not (map success results))"
        using ag by (simp only: simp_thms select_convs update_convs) simp
      also have "\<dots> = length (filter (page_fails page currentCycle) (take i colleges))
                        + length (filter (page_fails page currentCycle) ?batch)"
        by (simp only: nf "1.prems"(3))
      also have "\<dots> = length (filter (page_fails page currentCycle) (take (i + CONCURRENCY) colleges))"
        by (simp add: take_next_batch)
      finally show ?thesis .
    qed
    have s1: "successful ?st1 + failed ?st1 = completed ?st1"
    proof -
      have "successful ?st1 + failed ?st1
            = (successful st + failed st) + (length (filter id (map success results)) + length (filter Not (map success results)))"
        using ag by simp
      also have "\<dots> = completed st + length results"
        by (simp only: "1.prems"(2) filter_id_Not length_map)
      also have "\<dots> = completed ?st1" using ag by simp
      finally show ?thesis .
    qed
    have k1: "\<forall>cp \<in> set (checkpoints ?st1). checkpoint_ok cp"
      using ag "1.prems"(4) by simp
    have c2: "completed ?st2 = min (i + CONCURRENCY) (length colleges)"
      using c1 by (simp add: update_progress_def)
    have s2: "successful ?st2 + failed ?st2 = completed ?st2"
      using s1 by (simp add: update_progress_def)
    have f2: "failed ?st2 = length (filter (page_fails page currentCycle) (take (i + CONCURRENCY) colleges))"
      using f1 by (simp add: update_progress_def)
    have k2: "\<forall>cp \<in> set (checkpoints ?st2). checkpoint_ok cp"
      using k1 s1 by (simp add: update_progress_def checkpoint_ok_def)
    from "1.IH"[OF True refl refl pb[symmetric] refl refl c2 s2 f2 k2] step
    show ?thesis by simp
  qed
qed

lemma counters_only_refl: "counters_only logId l l"
proof -
  have "l = l\<lparr>colleges_attempted := colleges_attempted l, colleges_successful := colleges_successful l,
               colleges_failed := colleges_failed l\<rparr>" by simp
  then show ?thesis unfolding counters_only_def by metis
qed

lemma counters_only_trans:
  "counters_only logId l l' \<Longrightarrow> counters_only logId l' l'' \<Longrightarrow> counters_only logId l l''"
  unfolding counters_only_def by (auto split: if_splits)

lemma update_log_counters:
  "list_all2 (counters_only logId) logs
     (update_log logId (\<lambda>l. l\<lparr>colleges_attempted := a, colleges_successful := s, colleges_failed := f\<rparr>) logs)"
  unfolding update_log_def list_all2_map2
  by (rule list_all2_refl) (auto simp: counters_only_def)

lemma runCrawler_batches_logs:
  "list_all2 (counters_only logId) (rs_logs st)
     (rs_logs (runCrawler_batches page now currentCycle logId colleges i st))"
proof (induction page now currentCycle logId colleges i st rule: runCrawler_batches.induct)
  case (1 page now currentCycle logId colleges i st)
  show ?case
  proof (cases "i < length colleges")
    case False
    then have "runCrawler_batches page now currentCycle logId colleges i st = st"
      by (subst runCrawler_batches.simps) simp
    then show ?thesis by (simp add: list_all2_refl counters_only_refl)
  next
    case True
    let ?batch = "take CONCURRENCY (drop i colleges)"
    obtain rows results where pb: "processBatch page now currentCycle (rs_rounds st) ?batch = (rows, results)"
      by (cases "processBatch page now currentCycle (rs_rounds st) ?batch")
    let ?st1 = "aggregate (st\<lparr>rs_rounds := rows\<rparr>) results"
    let ?st2 = "update_progress logId ?st1"
    have step: "runCrawler_batches page now currentCycle logId colleges i st
                = runCrawler_batches page now currentCycle logId colleges (i + CONCURRENCY) ?st2"
      using True pb by (subst runCrawler_batches.simps) (simp add: Let_def)
    have "rs_logs ?st1 = rs_logs st"
      using aggregate_counts[of "st\<lparr>rs_rounds := rows\<rparr>" results] by simp
    then have a: "list_all2 (counters_only logId) (rs_logs st) (rs_logs ?st2)"
      using update_log_counters[of logId "rs_logs st"] by (simp add: update_progress_def)
    note b = "1.IH"[OF True refl refl pb[symmetric] refl refl]
    from a b have "list_all2 (counters_only logId) (rs_logs st)
        (rs_logs (runCrawler_batches page now currentCycle logId colleges (i + CONCURRENCY) ?st2))"
      by (rule list_all2_trans[rotated]) (rule counters_only_trans)
    with step show ?thesis by simp
  qed
qed

lemma next_log_id_fresh: "l \<in> set logs \<Longrightarrow> log_id l < next_log_id logs"
  unfolding next_log_id_def by (induction logs) auto

lemma counters_only_others:
  assumes "list_all2 (counters_only logId) logs logs'" and "\<forall>l \<in> set logs. log_id l \<noteq> logId"
  shows "logs' = logs"
  using assms by (induction rule: list_all2_induct) (auto simp: counters_only_def)

lemma update_log_others:
  "\<forall>l \<in> set logs. log_id l \<noteq> logId \<Longrightarrow> update_log logId g logs = logs"
  unfolding update_log_def by (induction logs) auto

lemma finalizeCrawlLog_counts:
  "completed (finalizeCrawlLog now logId err st) = completed st
   \<and> successful (finalizeCrawlLog now logId err st) = successful st
   \<and> failed (finalizeCrawlLog now logId err st) = failed st
   \<and> checkpoints (finalizeCrawlLog now logId err st) = checkpoints st"
  by (simp add: finalizeCrawlLog_def)

lemma runCrawler_logs:
  "rs_logs (runCrawler page now currentCycle colleges rows logs)
   = logs @ [\<lparr>log_id = next_log_id logs, run_started_at = now, run_finished_at = Some now,
              colleges_attempted = completed (runCrawler page now currentCycle colleges rows logs),
              colleges_successful = successful (runCrawler page now currentCycle colleges rows logs),
              colleges_failed = failed (runCrawler page now currentCycle colleges rows logs),
              details = Some [(''completed'', JNumber (completed (runCrawler page now currentCycle colleges rows logs))),
                              (''successful'', JNumber (successful (runCrawler page now currentCycle colleges rows logs))),
                              (''failed'', JNumber (failed (runCrawler page now currentCycle colleges rows logs)))]\<rparr>]"
proof -
  let ?logId = "next_log_id logs"
  let ?new = "\<lparr>log_id = ?logId, run_started_at = now, run_finished_at = None,
              colleges_attempted = 0, colleges_successful = 0, colleges_failed = 0, details = None\<rparr>"
  let ?st0 = "\<lparr>rs_rounds = rows, rs_logs = insert_crawl_log now logs,
                 completed = 0, successful = 0, failed = 0, rs_errors = [], foundDeadlines = [],
                 checkpoints = []\<rparr>"
  let ?st1 = "runCrawler_batches page now currentCycle ?logId colleges 0 ?st0"
  have others: "\<forall>l \<in> set logs. log_id l \<noteq> ?logId"
    using next_log_id_fresh by fastforce
  have "list_all2 (counters_only ?logId) (logs @ [?new]) (rs_logs ?st1)"
    using runCrawler_batches_logs[of ?logId ?st0 page now currentCycle colleges 0]
    by (simp add: insert_crawl_log_def)
  then obtain old' last' where sp: "rs_logs ?st1 = old' @ last'"
    and o: "list_all2 (counters_only ?logId) logs old'"
    and n: "list_all2 (counters_only ?logId) [?new] last'"
    by (auto simp: list_all2_append1)
  from o others have old: "old' = logs" by (rule counters_only_others)
  from n obtain new' where l: "last' = [new']" and cn: "counters_only ?logId ?new new'"
    by (auto simp: list_all2_Cons1)
  from cn obtain a s f where new': "new' = ?new\<lparr>colleges_attempted := a, colleges_successful := s, colleges_failed := f\<rparr>"
    by (auto simp: counters_only_def)
  have r: "runCrawler page now currentCycle colleges rows logs = finalizeCrawlLog now ?logId None ?st1"
    by (simp add: runCrawler_def Let_def)
  have "rs_logs (finalizeCrawlLog now ?logId None ?st1)
        = logs @ [\<lparr>log_id = ?logId, run_started_at = now, run_finished_at = Some now,
              colleges_attempted = completed ?st1, colleges_successful = successful ?st1,
              colleges_failed = failed ?st1,
              details = Some [(''completed'', JNumber (completed ?st1)),
                              (''successful'', JNumber (successful ?st1)),
                              (''failed'', JNumber (failed ?st1))]\<rparr>]"
    using sp old l new' update_log_others[OF others]
    by (simp add: finalizeCrawlLog_def update_log_def)
  then show ?thesis
    unfolding r using finalizeCrawlLog_counts[of now ?logId None ?st1] by simp
qed

lemma batches_left: "i < n \<Longrightarrow> (n - i + 9) div 10 = Suc ((n - (i + 10) + 9) div 10)"
  for i n :: nat
proof -
  assume "i < n"
  then have e: "n - i + 9 = (n - (i + 10) + 9) + 10 \<or> (n - (i + 10) = 0 \<and> 10 \<le> n - i + 9 \<and> n - i + 9 < 20)"
    by linarith
  show ?thesis
  proof (cases "n - (i + 10) = 0 \<and> 10 \<le> n - i + 9 \<and> n - i + 9 < 20")
    case True
    then have lo: "10 * 1 \<le> n - i + 9" by simp
    have "10 * Suc 1 = (20::nat)" by simp
    with True have hi: "n - i + 9 < 10 * Suc 1" by (simp only:)
    from lo hi have "(n - i + 9) div 10 = 1" by (rule div_nat_eqI)
    with True show ?thesis by simp
  next
    case False
    with e have "n - i + 9 = (n - (i + 10) + 9) + 10" by blast
    then have "(n - i + 9) div 10 = ((n - (i + 10) + 9) + 10) div 10" by (rule arg_cong)
    also have "\<dots> = (n - (i + 10) + 9) div 10 + 1" by (rule div_add_self2) simp
    finally show ?thesis by (simp only: Suc_eq_plus1)
  qed
qed

lemma runCrawler_batches_checkpoints:
  assumes "completed st = min i (length colleges)"
  shows "map fst (checkpoints (runCrawler_batches page now currentCycle logId colleges i st))
         = map fst (checkpoints st)
           @ map (\<lambda>k. min (i + CONCURRENCY * Suc k) (length colleges))
                 [0..<(length colleges - i + 9) div 10]"
  using assms
proof (induction page now currentCycle logId colleges i st rule: runCrawler_batches.induct)
  case (1 page now currentCycle logId colleges i st)
  show ?case
  proof (cases "i < length colleges")
    case False
    then have "runCrawler_batches page now currentCycle logId colleges i st = st"
      by (subst runCrawler_batches.simps) simp
    with False show ?thesis by simp
  next
    case True
    let ?batch = "take CONCURRENCY (drop i colleges)"
    obtain rows results where pb: "processBatch page now currentCycle (rs_rounds st) ?batch = (rows, results)"
      by (cases "processBatch page now currentCycle (rs_rounds st) ?batch")
    let ?st1 = "aggregate (st\<lparr>rs_rounds := rows\<rparr>) results"
    let ?st2 = "update_progress logId ?st1"
    have step: "runCrawler_batches page now currentCycle logId colleges i st
                = runCrawler_batches page now currentCycle logId colleges (i + CONCURRENCY) ?st2"
      using True pb by (subst runCrawler_batches.simps) (simp add: Let_def)
    have "map success results = map (\<lambda>c. \<not> page_fails page currentCycle c) ?batch"
      using processBatch_success[of page now currentCycle "rs_rounds st" ?batch] pb by simp
    then have len: "length results = length ?batch"
      by (metis length_map)
    note ag = aggregate_counts[of "st\<lparr>rs_rounds := rows\<rparr>" results]
    have c1: "completed ?st1 = min (i + CONCURRENCY) (length colleges)"
    proof -
      have "completed ?st1 = completed st + length results" using ag by simp
      also have "\<dots> = min i (length colleges) + min CONCURRENCY (length colleges - i)"
        using "1.prems"(1) len by simp
      also have "\<dots> = min (i + CONCURRENCY) (length colleges)"
        using True by linarith
      finally show ?thesis .
    qed
    have c2: "completed ?st2 = min (i + CONCURRENCY) (length colleges)"
      using c1 by (simp add: update_progress_def)
    have k2: "map fst (checkpoints ?st2) = map fst (checkpoints st) @ [min (i + CONCURRENCY) (length colleges)]"
      using ag c1 by (simp add: update_progress_def)
    note ih = "1.IH"[OF True refl refl pb[symmetric] refl refl c2]
    have n: "(length colleges - i + 9) div 10 = Suc ((length colleges - (i + CONCURRENCY) + 9) div 10)"
      using batches_left[OF True] by (simp add: CONCURRENCY_def)
    let ?f = "\<lambda>k. min (i + CONCURRENCY * Suc k) (length colleges)"
    let ?n = "(length colleges - (i + CONCURRENCY) + 9) div 10"
    have sh: "(\<lambda>k. min (i + CONCURRENCY + CONCURRENCY * Suc k) (length colleges)) = (\<lambda>k. ?f (Suc k))"
      by (rule ext) (simp only: mult_Suc_right add.assoc)
    have "map fst (checkpoints (runCrawler_batches page now currentCycle logId colleges i st))
          = map fst (checkpoints st) @ (?f 0 # map (\<lambda>k. ?f (Suc k)) [0..<?n])"
      unfolding step ih k2 sh by (simp only: append_assoc append_Cons append_Nil mult_Suc_right mult_0_right add_0_right)
    also have "?f 0 # map (\<lambda>k. ?f (Suc k)) [0..<?n] = map ?f [0..<Suc ?n]"
      by (simp only: map_upt_Suc)
    finally show ?thesis by (simp only: n)
  qed
qed

text \<open>
  C7 (batch accounting). For every list of target colleges and every outcome of their
  pages, \<^verbatim>\<open>runCrawler\<close> ends with the attempted counter equal to the number of colleges;
  every checkpoint written after a batch has successful + failed = attempted; the failed
  counter is the number of colleges whose page failed, so a failure is counted and the run
  goes on; the checkpoints are one per batch of \<open>CONCURRENCY\<close> colleges, the attempted
  count growing by a batch each time; and the run's own log row ends with that attempted
  count and an end time.
\<close>

theorem runCrawler_accounting:
  "completed (runCrawler page now currentCycle colleges rows logs) = length colleges
   \<and> successful (runCrawler page now currentCycle colleges rows logs)
     + failed (runCrawler page now currentCycle colleges rows logs) = length colleges
   \<and> failed (runCrawler page now currentCycle colleges rows logs)
     = length (filter (page_fails page currentCycle) colleges)
   \<and> (\<forall>cp \<in> set (checkpoints (runCrawler page now currentCycle colleges rows logs)). checkpoint_ok cp)
   \<and> map fst (checkpoints (runCrawler page now currentCycle colleges rows logs))
     = map (\<lambda>k. min (CONCURRENCY * Suc k) (length colleges)) [0..<(length colleges + 9) div 10]
   \<and> map colleges_attempted (rs_logs (runCrawler page now currentCycle colleges rows logs))
     = map colleges_attempted logs @ [length colleges]
   \<and> map run_finished_at (rs_logs (runCrawler page now currentCycle colleges rows logs))
     = map run_finished_at logs @ [Some now]"
proof -
  let ?st0 = "\<lparr>rs_rounds = rows, rs_logs = insert_crawl_log now logs,
                 completed = 0, successful = 0, failed = 0, rs_errors = [], foundDeadlines = [],
                 checkpoints = []\<rparr>"
  let ?st1 = "runCrawler_batches page now currentCycle (next_log_id logs) colleges 0 ?st0"
  have r: "runCrawler page now currentCycle colleges rows logs = finalizeCrawlLog now (next_log_id logs) None ?st1"
    by (simp add: runCrawler_def Let_def)
  have acc: "completed ?st1 = length colleges
       \<and> successful ?st1 + failed ?st1 = length colleges
       \<and> failed ?st1 = length (filter (page_fails page currentCycle) colleges)
       \<and> (\<forall>cp \<in> set (checkpoints ?st1). checkpoint_ok cp)"
    by (rule runCrawler_batches_accounting) simp_all
  have c: "completed (runCrawler page now currentCycle colleges rows logs) = length colleges"
    and s: "successful (runCrawler page now currentCycle colleges rows logs)
            + failed (runCrawler page now currentCycle colleges rows logs) = length colleges"
    and f: "failed (runCrawler page now currentCycle colleges rows logs)
            = length (filter (page_fails page currentCycle) colleges)"
    and k: "\<forall>cp \<in> set (checkpoints (runCrawler page now currentCycle colleges rows logs)). checkpoint_ok cp"
    unfolding r using acc finalizeCrawlLog_counts[of now "next_log_id logs" None ?st1] by simp_all
  have l1: "map colleges_attempted (rs_logs (runCrawler page now currentCycle colleges rows logs))
     = map colleges_attempted logs @ [length colleges]"
    by (subst runCrawler_logs) (simp add: c)
  have l2: "map run_finished_at (rs_logs (runCrawler page now currentCycle colleges rows logs))
     = map run_finished_at logs @ [Some now]"
    by (subst runCrawler_logs) simp
  have q: "map fst (checkpoints (runCrawler page now currentCycle colleges rows logs))
     = map (\<lambda>k. min (CONCURRENCY * Suc k) (length colleges)) [0..<(length colleges + 9) div 10]"
    unfolding r
    using runCrawler_batches_checkpoints[of ?st0 0 colleges page now currentCycle "next_log_id logs"]
      finalizeCrawlLog_counts[of now "next_log_id logs" None ?st1]
    by simp
  from c s f k q l1 l2 show ?thesis by blast
qed

theorem runCrawler_accounting_witness:
  "(2, 1, 1) \<in> set (checkpoints (runCrawler sample_page 100 ''2025-2026'' sample_colleges [] []))
   \<and> checkpoint_ok (2, 1, 1)
   \<and> completed (runCrawler sample_page 100 ''2025-2026'' sample_colleges [] []) = 2
   \<and> failed (runCrawler sample_page 100 ''2025-2026'' sample_colleges [] []) = 1"
proof -
  have e: "checkpoints (runCrawler sample_page 100 ''2025-2026'' sample_colleges [] []) = [(2, 1, 1)]"
    by code_simp
  have n: "length sample_colleges = 2" by (simp add: sample_colleges_def)
  have f: "length (filter (page_fails sample_page ''2025-2026'') sample_colleges) = 1"
    by (simp add: sample_colleges_def page_fails_def sample_page_def)
  note t = runCrawler_accounting[of sample_page 100 "''2025-2026''" sample_colleges "[]" "[]"]
  from t e have "checkpoint_ok (2, 1, 1)" by simp
  with t e n f show ?thesis by simp
qed

lemma is_stale_iff: "is_stale now l \<longleftrightarrow> run_finished_at l = None \<and> run_started_at l + 1800 < now"
  by (auto simp: is_stale_def)

lemma mark_stale_ok: "is_stale now l \<Longrightarrow> finalized_as_stale now l (mark_stale now l)"
  by (simp add: finalized_as_stale_def mark_stale_def jsonb_concat_def update_conv')

lemma cleanup_one: "finalized_as_stale now l (if is_stale now l then mark_stale now l else l)"
proof (cases "is_stale now l")
  case True
  then show ?thesis using mark_stale_ok by simp
next
  case False
  then show ?thesis by (simp add: finalized_as_stale_def)
qed

lemma cleanup_finalizes: "list_all2 (finalized_as_stale now) logs (cleanupStaleCrawlLogs now logs)"
  unfolding cleanupStaleCrawlLogs_def list_all2_map2
  by (rule list_all2_refl) (rule cleanup_one)

lemma cleanup_none_stale: "l \<in> set (cleanupStaleCrawlLogs now logs) \<Longrightarrow> \<not> is_stale now l"
  by (auto simp: cleanupStaleCrawlLogs_def is_stale_def mark_stale_def)

text \<open>
  C8 (stale-run cleanup). \<^verbatim>\<open>initialize\<close> leaves the log table as the cleanup made it:
  every run started more than 30 minutes before and still without an end time has its end
  time set and an \<^verbatim>\<open>error\<close> member in its details, its other columns kept; every other
  row is unchanged; no stale run is left. The weekly job is registered by \<^verbatim>\<open>initialize\<close>,
  after the cleanup, and before it is registered the job starts no run.
\<close>

theorem stale_runs_cleaned_at_startup:
  "list_all2 (finalized_as_stale now) (sv_logs sv) (sv_logs (initialize executeDataImport now sv))
   \<and> (\<forall>l \<in> set (sv_logs (initialize executeDataImport now sv)). \<not> is_stale now l)
   \<and> (is_stale now l \<longleftrightarrow> run_finished_at l = None \<and> run_started_at l + 30 * 60 < now)
   \<and> sv_logs (initialize executeDataImport now sv) = cleanupStaleCrawlLogs now (sv_logs sv)
   \<and> sv_cron (initialize executeDataImport now sv)
   \<and> (\<not> sv_cron sv \<longrightarrow> scheduled_update page t currentCycle colleges sv = sv)"
proof -
  have 1: "sv_logs (initialize executeDataImport now sv) = cleanupStaleCrawlLogs now (sv_logs sv)"
    by (simp add: initialize_def Let_def)
  have 2: "sv_cron (initialize executeDataImport now sv)"
    by (simp add: initialize_def Let_def)
  have 3: "\<not> sv_cron sv \<longrightarrow> scheduled_update page t currentCycle colleges sv = sv"
    by (simp add: scheduled_update_def)
  have 4: "is_stale now l \<longleftrightarrow> run_finished_at l = None \<and> run_started_at l + 30 * 60 < now"
    using is_stale_iff[of now l] by simp
  from 1 2 3 4 cleanup_finalizes[of now "sv_logs sv"] cleanup_none_stale[of _ now "sv_logs sv"]
  show ?thesis by simp
qed

theorem stale_runs_cleaned_at_startup_witness:
  "is_stale 5000 old_run \<and> \<not> is_stale 5000 recent_run
   \<and> sv_logs (initialize (\<lambda>rows. rows) 5000 stopped_service)
      = [old_run\<lparr>run_finished_at := Some 5000, details := Some [(''error'', JString stale_error)]\<rparr>, recent_run]
   \<and> sv_cron stopped_service = False
   \<and> scheduled_update sample_page 5000 ''2025-2026'' sample_colleges stopped_service = stopped_service
   \<and> \<not> is_stale 5000 (old_run\<lparr>run_finished_at := Some 5000, details := Some [(''error'', JString stale_error)]\<rparr>)"
proof -
  have a: "is_stale 5000 old_run" by (simp add: is_stale_def old_run_def)
  have b: "\<not> is_stale 5000 recent_run" by (simp add: is_stale_def recent_run_def)
  have c: "cleanupStaleCrawlLogs 5000 [old_run, recent_run]
      = [old_run\<lparr>run_finished_at := Some 5000, details := Some [(''error'', JString stale_error)]\<rparr>, recent_run]"
    using a b by (simp add: cleanupStaleCrawlLogs_def mark_stale_def jsonb_concat_def old_run_def)
  have d: "\<not> sv_cron stopped_service" by (simp add: stopped_service_def)
  have e: "sv_logs stopped_service = [old_run, recent_run]" by (simp add: stopped_service_def)
  note t = stale_runs_cleaned_at_startup[of 5000 stopped_service "\<lambda>rows. rows" old_run sample_page 5000
      "''2025-2026''" sample_colleges]
  from t c e have l: "sv_logs (initialize (\<lambda>rows. rows) 5000 stopped_service)
      = [old_run\<lparr>run_finished_at := Some 5000, details := Some [(''error'', JString stale_error)]\<rparr>, recent_run]"
    by simp
  from t l have n: "\<not> is_stale 5000 (old_run\<lparr>run_finished_at := Some 5000, details := Some [(''error'', JString stale_error)]\<rparr>)"
    by simp
  from t d have s: "scheduled_update sample_page 5000 ''2025-2026'' sample_colleges stopped_service = stopped_service"
    by simp
  from a b l d s n show ?thesis by simp
qed

text \<open>
  \<^verbatim>\<open>runCrawler\<close> called while the run started at time 100 has no end time creates a second
  log row.
\<close>

theorem second_runCrawler_creates_second_run:
  "map run_finished_at (insert_crawl_log 100 []) = [None]
   \<and> map run_finished_at (insert_crawl_log 200 (insert_crawl_log 100 [])) = [None, None]
   \<and> map log_id (rs_logs (runCrawler sample_page 200 ''2025-2026'' [] [] (insert_crawl_log 100 []))) = [1, 2]"
  by (simp add: insert_crawl_log_def next_log_id_def runCrawler_def runCrawler_batches.simps
      finalizeCrawlLog_def update_log_def)

text \<open>
  C2 (single run), as the code has it. \<^verbatim>\<open>POST /run\<close> received while \<^verbatim>\<open>isRunning\<close> is
  set answers 400 and leaves the flag and the log table as they were; received while it is
  clear it sets the flag, so that a second request before the insert returns is rejected;
  the flag is cleared when the handler resumes. \<^verbatim>\<open>runCrawler\<close> has no guard: whatever the
  log table holds, it appends one row of its own and leaves the rows of other runs unchanged.
\<close>

theorem run_guard:
  "(isRunning b \<longrightarrow> post_run_enter b = (Some (Status 400 ''Crawler is already running''), b))
   \<and> (\<not> isRunning b \<longrightarrow>
        post_run_enter b = (None, b\<lparr>isRunning := True\<rparr>)
        \<and> post_run_enter (snd (post_run_enter b))
            = (Some (Status 400 ''Crawler is already running''), b\<lparr>isRunning := True\<rparr>))
   \<and> isRunning (snd (post_run_resume startTime failure b)) = False
   \<and> take (length logs) (rs_logs (runCrawler page now currentCycle colleges rows logs)) = logs
   \<and> length (rs_logs (runCrawler page now currentCycle colleges rows logs)) = Suc (length logs)
   \<and> map run_started_at (rs_logs (runCrawler page now currentCycle colleges rows logs))
       = map run_started_at logs @ [now]"
proof -
  have 1: "isRunning b \<longrightarrow> post_run_enter b = (Some (Status 400 ''Crawler is already running''), b)"
    by (simp add: post_run_enter_def)
  have 2: "\<not> isRunning b \<longrightarrow>
        post_run_enter b = (None, b\<lparr>isRunning := True\<rparr>)
        \<and> post_run_enter (snd (post_run_enter b))
            = (Some (Status 400 ''Crawler is already running''), b\<lparr>isRunning := True\<rparr>)"
    by (simp add: post_run_enter_def)
  have 3: "isRunning (snd (post_run_resume startTime failure b)) = False"
    by (simp add: post_run_resume_def split: option.splits)
  have 4: "take (length logs) (rs_logs (runCrawler page now currentCycle colleges rows logs)) = logs"
    by (subst runCrawler_logs) simp
  have 5: "length (rs_logs (runCrawler page now currentCycle colleges rows logs)) = Suc (length logs)"
    by (subst runCrawler_logs) simp
  have 6: "map run_started_at (rs_logs (runCrawler page now currentCycle colleges rows logs))
       = map run_started_at logs @ [now]"
    by (subst runCrawler_logs) simp
  from 1 2 3 4 5 6 show ?thesis by blast
qed

theorem run_guard_witness:
  "isRunning busy_backend
   \<and> post_run_enter busy_backend = (Some (Status 400 ''Crawler is already running''), busy_backend)
   \<and> \<not> isRunning (busy_backend\<lparr>isRunning := False\<rparr>)
   \<and> post_run_enter (busy_backend\<lparr>isRunning := False\<rparr>) = (None, busy_backend)"
proof -
  have a: "isRunning busy_backend" by (simp add: busy_backend_def)
  have b: "\<not> isRunning (busy_backend\<lparr>isRunning := False\<rparr>)" by simp
  have c: "busy_backend\<lparr>isRunning := False\<rparr>\<lparr>isRunning := True\<rparr> = busy_backend"
    by (simp add: busy_backend_def)
  note t1 = run_guard[where b=busy_backend and startTime=0 and failure=None and page=sample_page
      and now=0 and currentCycle="''2025-2026''" and colleges="[]" and rows="[]" and logs="[]"]
  note t2 = run_guard[where b="busy_backend\<lparr>isRunning := False\<rparr>" and startTime=0 and failure=None
      and page=sample_page and now=0 and currentCycle="''2025-2026''" and colleges="[]" and rows="[]" and logs="[]"]
  from a t1 have 1: "post_run_enter busy_backend = (Some (Status 400 ''Crawler is already running''), busy_backend)"
    by simp
  from b t2 c have 2: "post_run_enter (busy_backend\<lparr>isRunning := False\<rparr>) = (None, busy_backend)"
    by simp
  from a b 1 2 show ?thesis by simp
qed

subsection \<open>Matching college names\<close>










subsection \<open>Parsing dates\<close>

text \<open>The examples of the specification, in a process whose time zone is UTC.\<close>

lemma parseDate_examples:
  "parseDate 0 ''November 1, 2025'' 2025 = Some ''2025-11-01''"
  "parseDate 0 ''November 1'' 2025 = Some ''2025-11-01''"
  "parseDate 0 ''February 1'' 2025 = Some ''2026-02-01''"
  "parseDate 0 ''13/45/2025'' 2025 = None"
  by code_simp+

lemma parseDate_full_invalid:
  "rx_search full_date_rx dateStr = Some ([w, d, y], rest) \<Longrightarrow>
   new_Date tz (w @ '' '' @ d @ '', '' @ y) = InvalidDate \<Longrightarrow>
   parseDate tz dateStr cycleStartYear = None"
  by (simp add: parseDate_def)

text \<open>
  East of UTC the local midnight of a named date lies on the previous UTC day, which is the
  day \<^verbatim>\<open>toISOString\<close> prints.
\<close>

lemma parseDate_east_of_utc: "parseDate 60 ''November 1, 2025'' 2025 = Some ''2025-10-31''"
  by code_simp


end
